theory Spec2Isabelle
  imports Complex_Main
begin

unbundle bit_operations_syntax

section \<open>JavaScript numbers and strings\<close>

text \<open>
  A JavaScript number is an IEEE 754 double. A finite double is modelled by its exact
  value, a rational; the other values are the two infinities and NaN.
\<close>

datatype jsnum = Num rat | PosInfinity | NegInfinity | NaN

text \<open>
  \<open>a / b\<close> for two non-negative integers that doubles hold exactly. \<open>0 / 0\<close> is NaN and
  \<open>a / 0\<close> is Infinity. Otherwise the result is the quotient rounded to the nearest
  double, ties to even: a double near \<open>a / b\<close> is \<open>m * 2 ^ e\<close> for an integer \<open>m\<close>, where
  \<open>e\<close> is the exponent that puts \<open>a / (b * 2 ^ e)\<close> between \<open>2 ^ 52\<close> and \<open>2 ^ 53\<close>, and not
  less than -1074, the exponent of the subnormal doubles. A rounded value of \<open>2 ^ 1024\<close>
  or more is Infinity.
\<close>

function bitLength :: "nat \<Rightarrow> nat" where
  "bitLength n = (if n = 0 then 0 else Suc (bitLength (n div 2)))"
  by pat_completeness auto
termination
  by (relation "measure (\<lambda>n. n)") auto

declare bitLength.simps [simp del]

text \<open>The integer nearest to \<open>n / d\<close>, the even one of two that are equally near.\<close>

definition roundHalfEven :: "nat \<Rightarrow> nat \<Rightarrow> nat" where
  "roundHalfEven n d =
     (let q = n div d; r = n mod d
      in if 2 * r < d then q
         else if d < 2 * r then q + 1
         else if even q then q else q + 1)"

definition ulpExponent :: "nat \<Rightarrow> nat \<Rightarrow> int" where
  "ulpExponent a b =
     (let t = int (bitLength a) - int (bitLength b);
          l = (if b * 2 ^ nat t \<le> a * 2 ^ nat (- t) then t else t - 1)
      in max (l - 52) (- 1074))"

definition js_div :: "nat \<Rightarrow> nat \<Rightarrow> jsnum" where
  "js_div a b =
     (if b = 0 then (if a = 0 then NaN else PosInfinity)
      else (let e = ulpExponent a b;
                m = roundHalfEven (a * 2 ^ nat (- e)) (b * 2 ^ nat e);
                v = of_nat (m * 2 ^ nat e) / of_nat (2 ^ nat (- e))
            in if 2 ^ 1024 \<le> v then PosInfinity else Num v))"

text \<open>\<open>x >= y\<close> on the values of two doubles: every comparison with NaN is false.\<close>

fun js_ge :: "jsnum \<Rightarrow> jsnum \<Rightarrow> bool" where
  "js_ge NaN y = False"
| "js_ge x NaN = False"
| "js_ge (Num a) (Num b) = (b \<le> a)"
| "js_ge PosInfinity y = True"
| "js_ge x NegInfinity = True"
| "js_ge x y = False"

definition in_unit_interval :: "jsnum \<Rightarrow> bool" where
  "in_unit_interval x = (case x of Num r \<Rightarrow> 0 \<le> r \<and> r \<le> 1 | PosInfinity \<Rightarrow> False
                          | NegInfinity \<Rightarrow> False | NaN \<Rightarrow> False)"

text \<open>\<open>s[i]\<close> on a string: the code unit at \<open>i\<close>, or \<open>undefined\<close> out of range.\<close>

definition str_at :: "'c list \<Rightarrow> nat \<Rightarrow> 'c option" where
  "str_at s i = (if i < length s then Some (s ! i) else None)"

section \<open>The comparator\<close>

text \<open>
  \<open>compareHashes\<close> has the same text in \<open>FaceHashGenerator\<close> (faceHash.ts),
  \<open>FaceDatabase\<close> and \<open>MongoDBFaceDatabase\<close> (faceValidationSystem.js):
  \<^verbatim>\<open>
  if (hash1.length !== hash2.length) { return 0 }
  let matches = 0
  for (let i = 0; i < hash1.length; i++) {
    if (hash1[i] === hash2[i]) { matches++ }
  }
  return matches / hash1.length
  \<close>
  The loop is the function below, with the loop variables \<open>i\<close> and \<open>matches\<close>.
\<close>

function compareHashes_loop :: "'c list \<Rightarrow> 'c list \<Rightarrow> nat \<Rightarrow> nat \<Rightarrow> nat" where
  "compareHashes_loop hash1 hash2 i matches =
     (if i < length hash1
      then compareHashes_loop hash1 hash2 (i + 1)
             (if str_at hash1 i = str_at hash2 i then matches + 1 else matches)
      else matches)"
  by pat_completeness auto
termination
  by (relation "measure (\<lambda>(hash1, hash2, i, matches). length hash1 - i)") auto

declare compareHashes_loop.simps [simp del]

definition compareHashes :: "'c list \<Rightarrow> 'c list \<Rightarrow> jsnum" where
  "compareHashes hash1 hash2 =
     (if length hash1 \<noteq> length hash2 then Num 0
      else js_div (compareHashes_loop hash1 hash2 0 0) (length hash1))"

text \<open>
  The indices at which the loop evaluates \<open>hash1[i] === hash2[i]\<close>, in order: the same
  control flow, recording each read instead of counting the matches.
\<close>

function compareHashes_reads_loop :: "'c list \<Rightarrow> 'c list \<Rightarrow> nat \<Rightarrow> nat list" where
  "compareHashes_reads_loop hash1 hash2 i =
     (if i < length hash1 then i # compareHashes_reads_loop hash1 hash2 (i + 1) else [])"
  by pat_completeness auto
termination
  by (relation "measure (\<lambda>(hash1, hash2, i). length hash1 - i)") auto

declare compareHashes_reads_loop.simps [simp del]

definition compareHashes_reads :: "'c list \<Rightarrow> 'c list \<Rightarrow> nat list" where
  "compareHashes_reads hash1 hash2 =
     (if length hash1 \<noteq> length hash2 then []
      else compareHashes_reads_loop hash1 hash2 0)"

text \<open>
  The specification's words: the count of positionally-matching characters of two
  strings of a common length.
\<close>

definition spec_match_count :: "'c list \<Rightarrow> 'c list \<Rightarrow> nat" where
  "spec_match_count d1 d2 = length (filter (\<lambda>i. d1 ! i = d2 ! i) [0..<length d1])"

section \<open>The digest generator (faceHash.ts)\<close>

text \<open>
  The code reaches the feature vector's floating-point values only through three
  renderings of an element, and the digests through three library calls. These are not
  code of the repository; they are the fields of a record that every generator takes.
  The type \<open>'v\<close> is the type of a descriptor element.
\<close>

record 'v runtime =
  numToString :: "'v \<Rightarrow> string"
    \<comment> \<open>\<open>String(val)\<close>, as \<open>Array.from(descriptor).join(',')\<close> renders an element\<close>
  scaledHex :: "'v \<Rightarrow> string"
    \<comment> \<open>\<open>Math.abs(val * 1000).toString(16)\<close>\<close>
  scaledModHex :: "'v \<Rightarrow> string"
    \<comment> \<open>\<open>(Math.abs(val * 1000) % 256).toString(16)\<close>\<close>
  sha256_hex :: "string \<Rightarrow> string"
    \<comment> \<open>the SHA-256 digest of the bytes of a string, in hexadecimal\<close>
  md5_hex :: "string \<Rightarrow> string"
    \<comment> \<open>the MD5 digest of the bytes of a string, in hexadecimal\<close>
  base64 :: "string \<Rightarrow> string"
    \<comment> \<open>\<open>Buffer.from(s).toString('base64')\<close>\<close>

text \<open>\<open>Array.prototype.join\<close> on an array of strings.\<close>

fun join :: "string list \<Rightarrow> string \<Rightarrow> string" where
  "join [] sep = []"
| "join [x] sep = x"
| "join (x # y # ys) sep = x @ sep @ join (y # ys) sep"

definition descriptorString :: "'v runtime \<Rightarrow> 'v list \<Rightarrow> string" where
  "descriptorString rt descriptor = join (map (numToString rt) descriptor) '',''"

text \<open>
  \<open>ToInt32\<close>, and the two 32-bit operators the rolling hash uses. A number that holds an
  integer is an \<open>int\<close> here; the wrap-around to 32 bits is written out.
\<close>

definition toInt32 :: "int \<Rightarrow> int" where
  "toInt32 x = (x + 2 ^ 31) mod 2 ^ 32 - 2 ^ 31"

definition js_shl :: "int \<Rightarrow> nat \<Rightarrow> int" where
  "js_shl x n = toInt32 (push_bit (n mod 32) (toInt32 x))"

definition js_bitand :: "int \<Rightarrow> int \<Rightarrow> int" where
  "js_bitand x y = toInt32 x AND toInt32 y"

text \<open>\<open>s.charCodeAt(i)\<close>: the code unit at \<open>i\<close>, or NaN (here \<open>None\<close>) out of range.\<close>

definition charCodeAt :: "string \<Rightarrow> nat \<Rightarrow> int option" where
  "charCodeAt s i = (if i < length s then Some (int (of_char (s ! i))) else None)"

text \<open>
  \<^verbatim>\<open>
  for (let i = 0; i < descriptorString.length; i++) {
    const char = descriptorString.charCodeAt(i)
    hash = ((hash << 5) - hash) + char
    hash = hash & hash // Converte para 32-bit integer
  }
  \<close>
  With a NaN \<open>char\<close> the sum is NaN and \<open>hash & hash\<close> is 0. The stringified vector
  is made of the characters of decimal numbers and commas, so a \<open>char\<close> holds each of its
  code units.
\<close>

function simpleHash_loop :: "string \<Rightarrow> nat \<Rightarrow> int \<Rightarrow> int" where
  "simpleHash_loop str i hash =
     (if i < length str
      then simpleHash_loop str (i + 1)
             (case charCodeAt str i of
                None \<Rightarrow> 0
              | Some char \<Rightarrow>
                  js_bitand ((js_shl hash 5 - hash) + char) ((js_shl hash 5 - hash) + char))
      else hash)"
  by pat_completeness auto
termination
  by (relation "measure (\<lambda>(str, i, hash). length str - i)") auto

declare simpleHash_loop.simps [simp del]


text \<open>\<open>n.toString(16)\<close> for a non-negative integer \<open>n\<close>.\<close>

definition hexDigit :: "nat \<Rightarrow> char" where
  "hexDigit k = ''0123456789abcdef'' ! (k mod 16)"

function toString16 :: "nat \<Rightarrow> string" where
  "toString16 n = (if n < 16 then [hexDigit n] else toString16 (n div 16) @ [hexDigit (n mod 16)])"
  by pat_completeness auto
termination
  by (relation "measure (\<lambda>n. n)") auto

declare toString16.simps [simp del]

text \<open>\<open>s.padStart(n, c)\<close> with a one-character pad string.\<close>

definition padStart :: "string \<Rightarrow> nat \<Rightarrow> char \<Rightarrow> string" where
  "padStart s n c = replicate (n - length s) c @ s"

text \<open>\<open>s.substring(a, b)\<close>: both ends are clamped to \<open>[0, s.length]\<close> and swapped if needed.\<close>

definition substring :: "string \<Rightarrow> int \<Rightarrow> int \<Rightarrow> string" where
  "substring s a b =
     (let len = int (length s);
          a' = min (max a 0) len;
          b' = min (max b 0) len;
          from = nat (min a' b');
          to = nat (max a' b')
      in take (to - from) (drop from s))"

definition hexHash :: "'v runtime \<Rightarrow> 'v list \<Rightarrow> string" where
  "hexHash rt descriptor =
     padStart (toString16 (nat \<bar>simpleHash_loop (descriptorString rt descriptor) 0 0\<bar>)) 8 CHR ''0''"

definition additionalHash :: "'v runtime \<Rightarrow> 'v list \<Rightarrow> string" where
  "additionalHash rt descriptor =
     foldl (\<lambda>acc val. acc @ padStart (scaledModHex rt val) 2 CHR ''0'') [] (take 16 descriptor)"

definition generateSimpleHash :: "'v runtime \<Rightarrow> 'v list \<Rightarrow> string" where
  "generateSimpleHash rt descriptor = hexHash rt descriptor @ additionalHash rt descriptor"

text \<open>
  \<open>crypto.createHash(alg).update(s).digest('hex')\<close>: a hash object collects the data it is
  given, and its digest is the digest of that data.
\<close>

datatype algorithm = SHA256 | MD5

record hashObject =
  hash_algorithm :: algorithm
  hash_data :: string

definition createHash :: "algorithm \<Rightarrow> hashObject" where
  "createHash alg = \<lparr>hash_algorithm = alg, hash_data = []\<rparr>"

definition update :: "hashObject \<Rightarrow> string \<Rightarrow> hashObject" where
  "update h s = h\<lparr>hash_data := hash_data h @ s\<rparr>"

definition digest_hex :: "'v runtime \<Rightarrow> hashObject \<Rightarrow> string" where
  "digest_hex rt h =
     (case hash_algorithm h of SHA256 \<Rightarrow> sha256_hex rt (hash_data h)
                             | MD5 \<Rightarrow> md5_hex rt (hash_data h))"

definition generateSHA256Hash :: "'v runtime \<Rightarrow> 'v list \<Rightarrow> string" where
  "generateSHA256Hash rt descriptor =
     digest_hex rt (update (createHash SHA256) (descriptorString rt descriptor))"

definition generateMD5Hash :: "'v runtime \<Rightarrow> 'v list \<Rightarrow> string" where
  "generateMD5Hash rt descriptor =
     digest_hex rt (update (createHash MD5) (descriptorString rt descriptor))"

definition generateBase64Hash :: "'v runtime \<Rightarrow> 'v list \<Rightarrow> string" where
  "generateBase64Hash rt descriptor = base64 rt (descriptorString rt descriptor)"

definition generateHexHash :: "'v runtime \<Rightarrow> 'v list \<Rightarrow> string" where
  "generateHexHash rt descriptor =
     join (map (\<lambda>val. padStart (scaledHex rt val) 4 CHR ''0'') descriptor) []"

text \<open>
  \<open>HashOptions\<close>: the algorithm selector and the optional cap. The selector's type has five
  members, so the \<open>default\<close> branch of the \<open>switch\<close> is not reached. The cap is an integer
  when it is given.
\<close>

datatype hashType = Simple | Sha256 | Md5 | Base64 | Hex

record hashOptions =
  opt_type :: hashType
  opt_length :: "int option"

text \<open>
  \<^verbatim>\<open>
  if (options.length && hash.length > options.length) {
    hash = hash.substring(0, options.length)
  }
  \<close>
  \<open>options.length\<close> is falsy when it is absent and when it is 0.
\<close>

definition generateFaceHash :: "'v runtime \<Rightarrow> 'v list \<Rightarrow> hashOptions \<Rightarrow> string" where
  "generateFaceHash rt descriptor options =
     (let hash = (case opt_type options of
                    Simple \<Rightarrow> generateSimpleHash rt descriptor
                  | Sha256 \<Rightarrow> generateSHA256Hash rt descriptor
                  | Md5 \<Rightarrow> generateMD5Hash rt descriptor
                  | Base64 \<Rightarrow> generateBase64Hash rt descriptor
                  | Hex \<Rightarrow> generateHexHash rt descriptor)
      in case opt_length options of
           None \<Rightarrow> hash
         | Some l \<Rightarrow> if l \<noteq> 0 \<and> int (length hash) > l then substring hash 0 l else hash)"

record allHashes =
  all_simple :: string
  all_sha256 :: string
  all_md5 :: string
  all_base64 :: string
  all_hex :: string

definition generateAllHashes :: "'v runtime \<Rightarrow> 'v list \<Rightarrow> allHashes" where
  "generateAllHashes rt descriptor =
     \<lparr>all_simple = generateSimpleHash rt descriptor,
      all_sha256 = generateSHA256Hash rt descriptor,
      all_md5 = generateMD5Hash rt descriptor,
      all_base64 = generateBase64Hash rt descriptor,
      all_hex = generateHexHash rt descriptor\<rparr>"

section \<open>The record store (faceValidationSystem.js)\<close>

text \<open>
  A metadata object is a list of properties in insertion order; a JavaScript \<open>Map\<close> is
  a list of entries in insertion order. \<open>Map.prototype.set\<close> and a property
  assignment replace the value of a key that is present, in its place, and append a new
  key at the end.
\<close>

fun Map_set :: "'k \<Rightarrow> 'a \<Rightarrow> ('k \<times> 'a) list \<Rightarrow> ('k \<times> 'a) list" where
  "Map_set k v [] = [(k, v)]"
| "Map_set k v ((k', v') # m) = (if k' = k then (k, v) # m else (k', v') # Map_set k v m)"

definition Map_get :: "('k \<times> 'a) list \<Rightarrow> 'k \<Rightarrow> 'a option" where
  "Map_get m k = map_of m k"

definition Map_keys :: "('k \<times> 'a) list \<Rightarrow> 'k list" where
  "Map_keys m = map fst m"

text \<open>\<open>Map.prototype.delete\<close>: whether the key was present, and the map without it.\<close>

definition Map_delete :: "('k \<times> 'a) list \<Rightarrow> 'k \<Rightarrow> bool \<times> ('k \<times> 'a) list" where
  "Map_delete m k = (k \<in> set (map fst m), filter (\<lambda>e. fst e \<noteq> k) m)"

datatype jsval = StrV string | NumV jsnum

type_synonym metadata = "(string \<times> jsval) list"

type_synonym timestamp = string

record faceRecord =
  userId :: string
  hash :: string
  metadata :: metadata
  createdAt :: timestamp
  lastUsed :: timestamp

record faceDatabase =
  faces :: "(string \<times> faceRecord) list"

definition new_FaceDatabase :: faceDatabase where
  "new_FaceDatabase = \<lparr>faces = []\<rparr>"

text \<open>
  The two values of \<open>new Date().toISOString()\<close> that \<open>saveFaceHash\<close> reads are its last
  two arguments. The record it builds is returned and stored under \<open>userId\<close>.
\<close>

definition saveFaceHash ::
  "faceDatabase \<Rightarrow> string \<Rightarrow> string \<Rightarrow> metadata \<Rightarrow> timestamp \<Rightarrow> timestamp
     \<Rightarrow> faceRecord \<times> faceDatabase" where
  "saveFaceHash db user digest meta now1 now2 =
     (let faceRecord = \<lparr>userId = user, hash = digest, metadata = meta,
                         createdAt = now1, lastUsed = now2\<rparr>
      in (faceRecord, db\<lparr>faces := Map_set user faceRecord (faces db)\<rparr>))"

definition getFaceHash :: "faceDatabase \<Rightarrow> string \<Rightarrow> faceRecord option" where
  "getFaceHash db user = Map_get (faces db) user"

datatype reason = UserNotFound | HashValid | HashMismatch

record validation =
  valid :: bool
  similarity :: "jsnum option"
  threshold :: "jsnum option"
  reason :: reason

text \<open>
  The default parameter \<open>threshold = 0.8\<close>: the default applies when no argument is given.
  The literal \<open>0.8\<close> is the double nearest to 4/5, which is 3602879701896397 / 2 ^ 52.
\<close>

definition default_threshold :: "jsnum option \<Rightarrow> jsnum" where
  "default_threshold thresholdArg =
     (case thresholdArg of
        None \<Rightarrow> Num (3602879701896397 / 4503599627370496)
      | Some t \<Rightarrow> t)"

text \<open>
  \<open>validateFaceHash(userId, inputHash, threshold = 0.8)\<close>. The stored record is an object
  that the map holds under \<open>userId\<close> alone (\<open>saveFaceHash\<close> creates one for each entry), so
  the assignment to its \<open>lastUsed\<close> changes that entry, in its place, and no other. The
  value of \<open>new Date().toISOString()\<close> that the assignment reads is the last argument.
\<close>

definition validateFaceHash ::
  "faceDatabase \<Rightarrow> string \<Rightarrow> string \<Rightarrow> jsnum option \<Rightarrow> timestamp
     \<Rightarrow> validation \<times> faceDatabase" where
  "validateFaceHash db user inputHash thresholdArg now =
     (let thr = default_threshold thresholdArg
      in case Map_get (faces db) user of
           None \<Rightarrow>
             (\<lparr>valid = False, similarity = None, threshold = None, reason = UserNotFound\<rparr>, db)
         | Some storedRecord \<Rightarrow>
             (let sim = compareHashes (hash storedRecord) inputHash;
                  isValid = js_ge sim thr
              in (\<lparr>valid = isValid, similarity = Some sim, threshold = Some thr,
                   reason = (if isValid then HashValid else HashMismatch)\<rparr>,
                  if isValid
                  then db\<lparr>faces := Map_set user (storedRecord\<lparr>lastUsed := now\<rparr>) (faces db)\<rparr>
                  else db)))"

definition listUsers :: "faceDatabase \<Rightarrow> string list" where
  "listUsers db = Map_keys (faces db)"

definition removeUser :: "faceDatabase \<Rightarrow> string \<Rightarrow> bool \<times> faceDatabase" where
  "removeUser db user =
     (let (removed, m) = Map_delete (faces db) user in (removed, db\<lparr>faces := m\<rparr>))"

text \<open>A sequence of calls on one \<open>FaceDatabase\<close>, from the empty map of its constructor.\<close>

datatype db_op =
    SaveFaceHash string string metadata timestamp timestamp
  | GetFaceHash string
  | ValidateFaceHash string string "jsnum option" timestamp
  | ListUsers
  | RemoveUser string

fun apply_db_op :: "faceDatabase \<Rightarrow> db_op \<Rightarrow> faceDatabase" where
  "apply_db_op db (SaveFaceHash user digest meta now1 now2) =
     snd (saveFaceHash db user digest meta now1 now2)"
| "apply_db_op db (GetFaceHash user) = db"
| "apply_db_op db (ValidateFaceHash user inputHash thresholdArg now) =
     snd (validateFaceHash db user inputHash thresholdArg now)"
| "apply_db_op db ListUsers = db"
| "apply_db_op db (RemoveUser user) = snd (removeUser db user)"

definition run_db_ops :: "db_op list \<Rightarrow> faceDatabase" where
  "run_db_ops ops = foldl apply_db_op new_FaceDatabase ops"

section \<open>The validation system (faceValidationSystem.js)\<close>

text \<open>
  The image loader and the face detector are external. Each may throw; the detector
  returns no result when it finds no face.
\<close>

datatype error = Error string

record 'v detection =
  det_descriptor :: "'v list"
  det_score :: jsnum

record ('img, 'v) collaborators =
  loadImage :: "string \<Rightarrow> error + 'img"
  detectSingleFace :: "'img \<Rightarrow> error + 'v detection option"

definition noFaceMessage :: string where
  "noFaceMessage = ''Nenhuma face detectada na imagem''"

definition generateValidationHash :: "'v runtime \<Rightarrow> 'v list \<Rightarrow> string" where
  "generateValidationHash rt d = generateSHA256Hash rt d"

record faceValidationSystem =
  database :: faceDatabase

definition new_FaceValidationSystem :: faceValidationSystem where
  "new_FaceValidationSystem = \<lparr>database = new_FaceDatabase\<rparr>"

text \<open>
  \<open>registerUser\<close>: the \<open>catch\<close> block logs and rethrows, so an error leaves the method as
  it was thrown. The metadata stored is \<open>{...metadata, descriptorLength, confidence}\<close>.
\<close>

definition registerUser ::
  "'v runtime \<Rightarrow> ('img, 'v) collaborators \<Rightarrow> faceValidationSystem \<Rightarrow> string \<Rightarrow> string
     \<Rightarrow> metadata \<Rightarrow> timestamp \<Rightarrow> timestamp \<Rightarrow> (error + faceRecord) \<times> faceValidationSystem" where
  "registerUser rt env sys user imagePath meta now1 now2 =
     (case loadImage env imagePath of
        Inl e \<Rightarrow> (Inl e, sys)
      | Inr img \<Rightarrow>
          (case detectSingleFace env img of
             Inl e \<Rightarrow> (Inl e, sys)
           | Inr None \<Rightarrow> (Inl (Error noFaceMessage), sys)
           | Inr (Some result) \<Rightarrow>
               (let digest = generateValidationHash rt (det_descriptor result);
                    (faceRecord, db) =
                       saveFaceHash (database sys) user digest
                         (Map_set ''confidence'' (NumV (det_score result))
                            (Map_set ''descriptorLength''
                               (NumV (Num (of_nat (length (det_descriptor result))))) meta))
                         now1 now2
                in (Inr faceRecord, sys\<lparr>database := db\<rparr>))))"

definition validateUser ::
  "'v runtime \<Rightarrow> ('img, 'v) collaborators \<Rightarrow> faceValidationSystem \<Rightarrow> string \<Rightarrow> string
     \<Rightarrow> timestamp \<Rightarrow> (error + validation) \<times> faceValidationSystem" where
  "validateUser rt env sys user imagePath now =
     (case loadImage env imagePath of
        Inl e \<Rightarrow> (Inl e, sys)
      | Inr img \<Rightarrow>
          (case detectSingleFace env img of
             Inl e \<Rightarrow> (Inl e, sys)
           | Inr None \<Rightarrow> (Inl (Error noFaceMessage), sys)
           | Inr (Some result) \<Rightarrow>
               (let inputHash = generateValidationHash rt (det_descriptor result);
                    (v, db) = validateFaceHash (database sys) user inputHash None now
                in (Inr v, sys\<lparr>database := db\<rparr>))))"

section \<open>The full-scan match (MongoDBFaceDatabase.findUserByHash)\<close>

text \<open>
  The collection is external: \<open>findUserByHash\<close> takes what
  \<open>collection.find({}).toArray()\<close> gives, the stored documents in the collection's order
  or an error, which the \<open>catch\<close> block rethrows.
\<close>

record mongoDoc = faceRecord +
  updatedAt :: timestamp

record userMatch =
  match_userId :: string
  match_similarity :: jsnum
  match_metadata :: metadata

fun findUserByHash_loop :: "mongoDoc list \<Rightarrow> string \<Rightarrow> jsnum \<Rightarrow> userMatch option" where
  "findUserByHash_loop [] inputHash thr = None"
| "findUserByHash_loop (user # users) inputHash thr =
     (let sim = compareHashes (hash user) inputHash
      in if js_ge sim thr
         then Some \<lparr>match_userId = userId user, match_similarity = sim,
                    match_metadata = metadata user\<rparr>
         else findUserByHash_loop users inputHash thr)"

definition findUserByHash ::
  "error + mongoDoc list \<Rightarrow> string \<Rightarrow> jsnum option \<Rightarrow> error + userMatch option" where
  "findUserByHash found inputHash thresholdArg =
     (let thr = default_threshold thresholdArg
      in case found of
           Inl e \<Rightarrow> Inl e
         | Inr users \<Rightarrow> Inr (findUserByHash_loop users inputHash thr))"

text \<open>
  The documents whose digest the scan passes to \<open>compareHashes\<close>, in order: the same loop,
  recording each comparison.
\<close>

fun findUserByHash_compared :: "mongoDoc list \<Rightarrow> string \<Rightarrow> jsnum \<Rightarrow> mongoDoc list" where
  "findUserByHash_compared [] inputHash thr = []"
| "findUserByHash_compared (user # users) inputHash thr =
     user # (if js_ge (compareHashes (hash user) inputHash) thr then []
             else findUserByHash_compared users inputHash thr)"

section \<open>The script of faceHash.ts\<close>

text \<open>
  \<open>run\<close>, from the detector's result on. With no result it logs the message and returns;
  otherwise it computes the digests that it prints and saves, and compares two digests of
  the same descriptor.
\<close>

record run_results =
  res_hashes :: allHashes
  res_hashesWithLengths :: "(hashType \<times> (int \<times> string) list) list"
  res_hash1 :: string
  res_hash2 :: string
  res_similarity :: jsnum

datatype run_outcome = NoFace string | Completed run_results

definition run :: "'v runtime \<Rightarrow> 'v detection option \<Rightarrow> run_outcome" where
  "run rt result =
     (case result of
        None \<Rightarrow> NoFace noFaceMessage
      | Some r \<Rightarrow>
          (let d = det_descriptor r;
               hashTypes = [Simple, Sha256, Md5, Base64, Hex];
               hash1 = generateFaceHash rt d \<lparr>opt_type = Simple, opt_length = Some 32\<rparr>;
               hash2 = generateFaceHash rt d \<lparr>opt_type = Simple, opt_length = Some 32\<rparr>
           in Completed
                \<lparr>res_hashes = generateAllHashes rt d,
                 res_hashesWithLengths =
                   map (\<lambda>t. (t, map (\<lambda>l. (l, generateFaceHash rt d
                                                 \<lparr>opt_type = t, opt_length = Some l\<rparr>))
                                    [16, 32, 64]))
                       hashTypes,
                 res_hash1 = hash1,
                 res_hash2 = hash2,
                 res_similarity = compareHashes hash1 hash2\<rparr>))"

section \<open>An example descriptor\<close>

text \<open>
  The descriptor \<open>[0.1, -0.2, 0.3]\<close> as a \<open>Float32Array\<close> holds the three binary
  fractions below. \<open>example_runtime\<close> gives the renderings of these three values and the
  digests of their joined string; it is empty elsewhere.
\<close>

definition example_descriptor :: "rat list" where
  "example_descriptor = [13421773 / 134217728, - (13421773 / 67108864), 5033165 / 16777216]"

definition example_string :: string where
  "example_string = ''0.10000000149011612,-0.20000000298023224,0.30000001192092896''"

definition example_runtime :: "rat runtime" where
  "example_runtime =
     \<lparr>numToString = (\<lambda>v. if v = 13421773 / 134217728 then ''0.10000000149011612''
                          else if v = - (13421773 / 67108864) then ''-0.20000000298023224''
                          else if v = 5033165 / 16777216 then ''0.30000001192092896''
                          else []),
      scaledHex = (\<lambda>v. if v = 13421773 / 134217728 then ''64.000019''
                        else if v = - (13421773 / 67108864) then ''c8.000032''
                        else if v = 5033165 / 16777216 then ''12c.0000c8''
                        else []),
      scaledModHex = (\<lambda>v. if v = 13421773 / 134217728 then ''64.000019''
                           else if v = - (13421773 / 67108864) then ''c8.000032''
                           else if v = 5033165 / 16777216 then ''2c.0000c8''
                           else []),
      sha256_hex = (\<lambda>s. if s = example_string
                         then ''a52685bd4a9590dc65bea7122adf6b2689f05fbf420c437bbeb47bf1aa7ac818''
                         else []),
      md5_hex = (\<lambda>s. if s = example_string then ''5adbb5a93152f95d572df5f35e3b76bf'' else []),
      base64 = (\<lambda>s. if s = example_string
                     then ''MC4xMDAwMDAwMDE0OTAxMTYxMiwtMC4yMDAwMDAwMDI5ODAyMzIyNCwwLjMwMDAwMDAxMTkyMDkyODk2''
                     else [])\<rparr>"

text \<open>A loader and a detector for the example: one image, with the example descriptor.\<close>

definition example_collaborators :: "(string, rat) collaborators" where
  "example_collaborators =
     \<lparr>loadImage = (\<lambda>path. if path = ''../images/bbt1.jpg'' \<or> path = ''../images/empty.jpg''
                            then Inr path else Inl (Error ''ENOENT'')),
      detectSingleFace = (\<lambda>img. if img = ''../images/bbt1.jpg''
                                 then Inr (Some \<lparr>det_descriptor = example_descriptor,
                                                 det_score = Num (9 / 10)\<rparr>)
                                 else Inr None)\<rparr>"

section \<open>Properties of the division\<close>

lemma bitLength_mono: "a \<le> b \<Longrightarrow> bitLength a \<le> bitLength b"
proof (induction a arbitrary: b rule: bitLength.induct)
  case (1 n)
  show ?case
  proof (cases "n = 0")
    case True
    then show ?thesis by (subst bitLength.simps) simp
  next
    case False
    with "1.prems" have b: "b \<noteq> 0" by simp
    from "1.prems" have "n div 2 \<le> b div 2" by (rule div_le_mono)
    from "1.IH" [OF False this] have "bitLength (n div 2) \<le> bitLength (b div 2)" .
    with False b show ?thesis
      by (subst bitLength.simps, subst (2) bitLength.simps) simp
  qed
qed

lemma roundHalfEven_le:
  assumes "0 < d" and "n \<le> N * d"
  shows "roundHalfEven n d \<le> N"
proof -
  have q: "n div d \<le> N"
    using assms by (metis div_le_mono div_mult_self_is_m)
  show ?thesis
  proof (cases "n div d = N")
    case True
    have "n div d * d \<le> n" by simp
    with True assms(2) have "n = N * d" by simp
    with assms(1) have "n mod d = 0" by simp
    with assms(1) True show ?thesis by (simp add: roundHalfEven_def Let_def)
  next
    case False
    with q have "n div d + 1 \<le> N" by simp
    with q show ?thesis by (simp add: roundHalfEven_def Let_def)
  qed
qed

lemma roundHalfEven_error:
  assumes "0 < d"
  shows "\<bar>2 * int (roundHalfEven n d) * int d - 2 * int n\<bar> \<le> int d"
proof -
  have n: "int n = int (n div d) * int d + int (n mod d)"
    by (metis of_nat_add of_nat_mult div_mult_mod_eq)
  have r: "n mod d < d" using assms by simp
  show ?thesis
    using r by (auto simp: roundHalfEven_def Let_def n algebra_simps)
qed

lemma roundHalfEven_exact: "0 < d \<Longrightarrow> roundHalfEven (k * d) d = k"
  by (simp add: roundHalfEven_def Let_def)

lemma ulpExponent_le: "a \<le> b \<Longrightarrow> ulpExponent a b \<le> 0"
proof -
  assume "a \<le> b"
  then have "bitLength a \<le> bitLength b" by (rule bitLength_mono)
  then show ?thesis by (simp add: ulpExponent_def Let_def)
qed

lemma ulpExponent_same: "0 < n \<Longrightarrow> ulpExponent n n = - 52"
  by (simp add: ulpExponent_def Let_def)

lemma ulpExponent_less: "a < b \<Longrightarrow> ulpExponent a b \<le> - 53"
proof -
  assume ab: "a < b"
  then have le: "bitLength a \<le> bitLength b" by (simp add: bitLength_mono)
  show ?thesis
  proof (cases "bitLength a = bitLength b")
    case True
    with ab show ?thesis by (simp add: ulpExponent_def Let_def)
  next
    case False
    with le have "int (bitLength a) - int (bitLength b) \<le> - 1" by simp
    then show ?thesis by (simp add: ulpExponent_def Let_def)
  qed
qed

lemma js_div_same: "0 < n \<Longrightarrow> js_div n n = Num 1"
proof -
  assume n: "0 < n"
  have "n * 2 ^ 52 = 2 ^ 52 * n" by simp
  then have "roundHalfEven (n * 2 ^ 52) n = 2 ^ 52"
    using roundHalfEven_exact [OF n, of "2 ^ 52"] by (simp add: mult.commute)
  with n show ?thesis
    by (simp add: js_div_def ulpExponent_same Let_def)
qed

lemma roundHalfEven_near:
  assumes "0 < d"
  shows "2 * (roundHalfEven n d * d) \<le> 2 * n + d \<and> 2 * n \<le> 2 * (roundHalfEven n d * d) + d"
proof -
  have n: "n = n div d * d + n mod d" by simp
  have r: "n mod d < d" using assms by simp
  define q where "q = n div d"
  define r' where "r' = n mod d"
  from n r have n': "n = q * d + r'" and r'': "r' < d"
    by (simp_all add: q_def r'_def)
  have "roundHalfEven n d = q \<and> 2 * r' \<le> d \<or> roundHalfEven n d = q + 1 \<and> d \<le> 2 * r'"
    by (auto simp: roundHalfEven_def Let_def q_def r'_def)
  then show ?thesis
  proof
    assume "roundHalfEven n d = q \<and> 2 * r' \<le> d"
    then show ?thesis by (simp add: n')
  next
    assume a: "roundHalfEven n d = q + 1 \<and> d \<le> 2 * r'"
    then have "roundHalfEven n d * d = q * d + d" by (simp add: algebra_simps)
    with a r'' show ?thesis by (simp add: n')
  qed
qed

lemma js_div_unit:
  assumes "a \<le> b" and "0 < b"
  shows "\<exists>r. js_div a b = Num r \<and> 0 \<le> r \<and> r \<le> 1
             \<and> \<bar>r - of_nat a / of_nat b\<bar> \<le> 1 / 2 ^ 54"
proof (cases "a = b")
  case True
  with assms(2) have "js_div a b = Num 1" by (simp add: js_div_same)
  with True assms(2) show ?thesis by simp
next
  case False
  with assms(1) have ab: "a < b" by simp
  define e where "e = ulpExponent a b"
  define k where "k = nat (- e)"
  define m where "m = roundHalfEven (a * 2 ^ k) b"
  from ab have e53: "e \<le> - 53" unfolding e_def by (rule ulpExponent_less)
  then have e0: "nat e = 0" and k53: "53 \<le> k" by (simp_all add: k_def)
  have "a * 2 ^ k \<le> 2 ^ k * b" using assms(1) by simp
  with assms(2) have mk: "m \<le> 2 ^ k" unfolding m_def by (rule roundHalfEven_le)
  let ?M = "of_nat m :: rat" and ?K = "2 ^ k :: rat"
  let ?A = "of_nat a :: rat" and ?B = "of_nat b :: rat"
  have Kpos: "0 < ?K" by simp
  have Bpos: "0 < ?B" using assms(2) by simp
  have "?M \<le> of_nat (2 ^ k)" using mk by (simp only: of_nat_le_iff)
  then have MK: "?M \<le> ?K" by simp
  then have le1: "?M / ?K \<le> 1" using Kpos by (simp add: divide_le_eq_1)
  have ge0: "0 \<le> ?M / ?K" by simp
  have "?M / ?K < 2 ^ 1024"
  proof -
    have "(1 :: rat) < 2 ^ 1024" by simp
    with le1 show ?thesis by (rule le_less_trans)
  qed
  then have val: "js_div a b = Num (?M / ?K)"
    using assms(2) e0
    by (simp add: js_div_def Let_def e_def [symmetric] k_def [symmetric] m_def [symmetric])
  from roundHalfEven_near [OF assms(2), of "a * 2 ^ k"]
  have n1: "2 * (m * b) \<le> 2 * (a * 2 ^ k) + b" and n2: "2 * (a * 2 ^ k) \<le> 2 * (m * b) + b"
    by (simp_all add: m_def)
  from n1 have "(of_nat (2 * (m * b)) :: rat) \<le> of_nat (2 * (a * 2 ^ k) + b)"
    by (simp only: of_nat_le_iff)
  then have r1: "2 * (?M * ?B) \<le> 2 * (?A * ?K) + ?B" by simp
  from n2 have "(of_nat (2 * (a * 2 ^ k)) :: rat) \<le> of_nat (2 * (m * b) + b)"
    by (simp only: of_nat_le_iff)
  then have r2: "2 * (?A * ?K) \<le> 2 * (?M * ?B) + ?B" by simp
  from r1 r2 have num: "\<bar>?M * ?B - ?A * ?K\<bar> \<le> ?B / 2" by linarith
  have eq: "?M / ?K - ?A / ?B = (?M * ?B - ?A * ?K) / (?K * ?B)"
    using Kpos Bpos by (simp add: field_simps)
  have "\<bar>?M / ?K - ?A / ?B\<bar> = \<bar>?M * ?B - ?A * ?K\<bar> / (?K * ?B)"
    using Kpos Bpos by (simp add: eq abs_mult)
  also have "\<dots> \<le> (?B / 2) / (?K * ?B)"
  proof -
    have "0 \<le> ?K * ?B" by simp
    with num show ?thesis by (rule divide_right_mono)
  qed
  also have "\<dots> = 1 / (2 * ?K)"
    using Bpos Kpos by (simp add: field_simps)
  also have "\<dots> \<le> 1 / 2 ^ 54"
  proof -
    have "(2 :: rat) ^ 53 \<le> 2 ^ k" using k53 by (rule power_increasing) simp
    then have "2 * (2 :: rat) ^ 53 \<le> 2 * 2 ^ k" by (simp only: mult_le_cancel_left_pos zero_less_numeral)
    moreover have "(2 :: rat) ^ 54 = 2 * 2 ^ 53" by simp
    ultimately have "(2 :: rat) ^ 54 \<le> 2 * 2 ^ k" by (simp only:)
    moreover have "(0 :: rat) < 2 ^ 54" by simp
    ultimately show ?thesis by (intro frac_le) simp_all
  qed
  finally have err: "\<bar>?M / ?K - ?A / ?B\<bar> \<le> 1 / 2 ^ 54" .
  from val ge0 le1 err show ?thesis by blast
qed

lemma js_div_1_3: "js_div 1 3 = Num (6004799503160661 / 18014398509481984)"
  by (simp add: js_div_def ulpExponent_def roundHalfEven_def bitLength.simps Let_def)

lemma js_div_4_5: "js_div 4 5 = Num (3602879701896397 / 4503599627370496)"
  by (simp add: js_div_def ulpExponent_def roundHalfEven_def bitLength.simps Let_def)

lemma js_div_0_5: "js_div 0 5 = Num 0"
  by (simp add: js_div_def ulpExponent_def roundHalfEven_def bitLength.simps Let_def)

section \<open>Properties of the comparator\<close>

lemma compareHashes_loop_count:
  assumes "length hash1 = length hash2"
  shows "compareHashes_loop hash1 hash2 i m =
           m + length (filter (\<lambda>j. hash1 ! j = hash2 ! j) [i..<length hash1])"
  using assms
proof (induction hash1 hash2 i m rule: compareHashes_loop.induct)
  case (1 hash1 hash2 i matches)
  show ?case
  proof (cases "i < length hash1")
    case True
    then have up: "[i..<length hash1] = i # [i + 1..<length hash1]"
      by (simp add: upt_conv_Cons)
    from True "1.prems" have at: "(str_at hash1 i = str_at hash2 i) = (hash1 ! i = hash2 ! i)"
      by (simp add: str_at_def)
    from "1.IH" [OF True "1.prems"] True show ?thesis
      by (subst compareHashes_loop.simps) (simp add: up at)
  next
    case False
    then show ?thesis
      by (subst compareHashes_loop.simps) simp
  qed
qed

lemma compareHashes_loop_matches:
  "length hash1 = length hash2 \<Longrightarrow>
     compareHashes_loop hash1 hash2 0 0 = spec_match_count hash1 hash2"
  by (simp add: compareHashes_loop_count spec_match_count_def)

lemma spec_match_count_le: "spec_match_count d1 d2 \<le> length d1"
proof -
  have "length (filter (\<lambda>i. d1 ! i = d2 ! i) [0..<length d1]) \<le> length [0..<length d1]"
    by (rule length_filter_le)
  then show ?thesis by (simp add: spec_match_count_def)
qed

lemma spec_match_count_same: "spec_match_count d d = length d"
  by (simp add: spec_match_count_def)

lemma spec_match_count_card:
  "spec_match_count d1 d2 = card {i. i < length d1 \<and> d1 ! i = d2 ! i}"
proof -
  have "distinct (filter (\<lambda>i. d1 ! i = d2 ! i) [0..<length d1])"
    by simp
  then have "length (filter (\<lambda>i. d1 ! i = d2 ! i) [0..<length d1]) =
             card (set (filter (\<lambda>i. d1 ! i = d2 ! i) [0..<length d1]))"
    by (simp only: distinct_card)
  also have "set (filter (\<lambda>i. d1 ! i = d2 ! i) [0..<length d1]) =
             {i. i < length d1 \<and> d1 ! i = d2 ! i}"
    by auto
  finally show ?thesis by (simp add: spec_match_count_def)
qed

lemma compareHashes_reads_loop_upt:
  "i \<le> length hash1 \<Longrightarrow> compareHashes_reads_loop hash1 hash2 i = [i..<length hash1]"
proof (induction hash1 hash2 i rule: compareHashes_reads_loop.induct)
  case (1 hash1 hash2 i)
  show ?case
  proof (cases "i < length hash1")
    case True
    with "1.IH" show ?thesis
      by (subst compareHashes_reads_loop.simps) (simp add: upt_conv_Cons)
  next
    case False
    with "1.prems" show ?thesis
      by (subst compareHashes_reads_loop.simps) simp
  qed
qed

lemma compareHashes_equal_length:
  "length hash1 = length hash2 \<Longrightarrow>
     compareHashes hash1 hash2 = js_div (spec_match_count hash1 hash2) (length hash1)"
  by (simp add: compareHashes_def compareHashes_loop_matches)

lemma compareHashes_self: "d \<noteq> [] \<Longrightarrow> compareHashes d d = Num 1"
  by (simp add: compareHashes_equal_length spec_match_count_same js_div_same)

subsection \<open>Three comparisons, evaluated\<close>

lemma example_compare_4_of_5:
  "compareHashes ''abcde'' ''abcdX'' = Num (3602879701896397 / 4503599627370496)"
proof -
  have "compareHashes ''abcde'' ''abcdX'' =
          js_div (spec_match_count ''abcde'' ''abcdX'') (length ''abcde'')"
    by (rule compareHashes_equal_length) simp
  also have "spec_match_count ''abcde'' ''abcdX'' = 4"
    by code_simp
  also have "length ''abcde'' = 5"
    by simp
  finally show ?thesis
    by (simp only: js_div_4_5)
qed

lemma example_compare_0_of_5: "compareHashes ''vwxyz'' ''abcdX'' = Num 0"
proof -
  have "compareHashes ''vwxyz'' ''abcdX'' =
          js_div (spec_match_count ''vwxyz'' ''abcdX'') (length ''vwxyz'')"
    by (rule compareHashes_equal_length) simp
  also have "spec_match_count ''vwxyz'' ''abcdX'' = 0"
    by code_simp
  also have "length ''vwxyz'' = 5"
    by simp
  finally show ?thesis
    by (simp only: js_div_0_5)
qed

lemma example_compare_1_of_3:
  "compareHashes ''abc'' ''axx'' = Num (6004799503160661 / 18014398509481984)"
proof -
  have "compareHashes ''abc'' ''axx'' =
          js_div (spec_match_count ''abc'' ''axx'') (length ''abc'')"
    by (rule compareHashes_equal_length) simp
  also have "spec_match_count ''abc'' ''axx'' = 1"
    by code_simp
  also have "length ''abc'' = 3"
    by simp
  finally show ?thesis
    by (simp only: js_div_1_3)
qed

lemma compareHashes_reads_equal_length:
  "length hash1 = length hash2 \<Longrightarrow> compareHashes_reads hash1 hash2 = [0..<length hash1]"
  by (simp add: compareHashes_reads_def compareHashes_reads_loop_upt)

text \<open>
  Claim C1, as amended. For two digest strings of the same nonzero length,
  \<open>compareHashes\<close> returns the count of positionally-matching characters divided by the
  common length, as the division of doubles gives it: the quotient rounded to the nearest
  double, which is within \<open>2 ^ -54\<close> of the exact quotient. The result is a fraction in
  \<open>[0, 1]\<close>.
\<close>

theorem compareHashes_fraction:
  assumes "length hash1 = length hash2" and "hash1 \<noteq> []"
  shows "compareHashes hash1 hash2 = js_div (spec_match_count hash1 hash2) (length hash1)
         \<and> in_unit_interval (compareHashes hash1 hash2)
         \<and> (\<exists>r. compareHashes hash1 hash2 = Num r
                 \<and> \<bar>r - of_nat (spec_match_count hash1 hash2) / of_nat (length hash1)\<bar>
                     \<le> 1 / 2 ^ 54)"
proof -
  from assms(2) have len: "0 < length hash1" by simp
  have val: "compareHashes hash1 hash2 = js_div (spec_match_count hash1 hash2) (length hash1)"
    using assms(1) by (rule compareHashes_equal_length)
  from js_div_unit [OF spec_match_count_le len, of hash2]
  obtain r where r: "js_div (spec_match_count hash1 hash2) (length hash1) = Num r"
    and bounds: "0 \<le> r" "r \<le> 1"
    and err: "\<bar>r - of_nat (spec_match_count hash1 hash2) / of_nat (length hash1)\<bar>
                \<le> 1 / 2 ^ 54"
    by blast
  from val r bounds have "in_unit_interval (compareHashes hash1 hash2)"
    by (simp add: in_unit_interval_def)
  moreover from val r err
  have "\<exists>r. compareHashes hash1 hash2 = Num r
           \<and> \<bar>r - of_nat (spec_match_count hash1 hash2) / of_nat (length hash1)\<bar>
               \<le> 1 / 2 ^ 54"
    by simp
  ultimately show ?thesis
    using val by simp
qed

theorem compareHashes_fraction_witness:
  "length ''abc'' = length ''axx'' \<and> ''abc'' \<noteq> [] \<and>
   compareHashes ''abc'' ''axx'' = Num (6004799503160661 / 18014398509481984) \<and>
   in_unit_interval (compareHashes ''abc'' ''axx'')"
proof -
  have eq: "length ''abc'' = length ''axx''" by simp
  have ne: "''abc'' \<noteq> []" by simp
  from compareHashes_fraction [OF eq ne]
  have "in_unit_interval (compareHashes ''abc'' ''axx'')"
    by (elim conjE)
  with eq ne show ?thesis
    by (simp only: example_compare_1_of_3 simp_thms)
qed

text \<open>
  Claim C1 as it is written includes two empty strings. There the lengths are equal,
  the loop does not run, and \<open>0 / 0\<close> is NaN, which is not a fraction in \<open>[0, 1]\<close>.
\<close>

theorem compareHashes_empty_counterexample:
  "length ([] :: string) = length ([] :: string) \<and>
   compareHashes ([] :: string) [] = NaN \<and>
   \<not> in_unit_interval (compareHashes ([] :: string) [])"
  by (simp add: compareHashes_def js_div_def in_unit_interval_def compareHashes_loop.simps)

text \<open>
  Claim C2. For two digest strings whose lengths differ, \<open>compareHashes\<close> returns 0, and
  it reads no character of either string on the way.
\<close>

theorem compareHashes_length_mismatch:
  assumes "length hash1 \<noteq> length hash2"
  shows "compareHashes hash1 hash2 = Num 0 \<and> compareHashes_reads hash1 hash2 = []"
  using assms by (simp add: compareHashes_def compareHashes_reads_def)

theorem compareHashes_length_mismatch_witness:
  "length ''abc'' \<noteq> length ''abcd'' \<and> compareHashes ''abc'' ''abcd'' = Num 0
     \<and> compareHashes_reads ''abc'' ''abcd'' = []"
  using compareHashes_length_mismatch [of "''abc''" "''abcd''"] by simp

text \<open>
  Claim C3. For every digest string \<open>d\<close> of nonzero length, \<open>compareHashes d d\<close> is 1.
\<close>

theorem compareHashes_same:
  assumes "d \<noteq> []"
  shows "compareHashes d d = Num 1"
  using assms by (rule compareHashes_self)

theorem compareHashes_same_witness:
  "''3c8366fb'' \<noteq> [] \<and> compareHashes ''3c8366fb'' ''3c8366fb'' = Num 1"
  using compareHashes_same [of "''3c8366fb''"] by simp

section \<open>Properties of the digest generator\<close>


lemma toInt32_id: "- (2 ^ 31) \<le> x \<Longrightarrow> x < 2 ^ 31 \<Longrightarrow> toInt32 x = x"
  by (simp add: toInt32_def)

















lemma substring_0: "substring s 0 l = take (nat l) s"
  by (simp add: substring_def Let_def min_def max_def)


subsection \<open>The example descriptor, evaluated\<close>

lemma example_descriptorString:
  "descriptorString example_runtime example_descriptor = example_string"
  by code_simp

lemma example_loop: "simpleHash_loop example_string 0 0 = - 1015244539"
  by code_simp

lemma example_toString16: "toString16 1015244539 = ''3c8366fb''"
  by (simp add: toString16.simps hexDigit_def)

lemma example_hexHash: "hexHash example_runtime example_descriptor = ''3c8366fb''"
  by (simp add: hexHash_def example_descriptorString example_loop example_toString16 padStart_def)

lemma example_additionalHash:
  "additionalHash example_runtime example_descriptor = ''64.000019c8.0000322c.0000c8''"
  by code_simp

lemma example_simple:
  "generateSimpleHash example_runtime example_descriptor =
     ''3c8366fb64.000019c8.0000322c.0000c8''"
  by (simp add: generateSimpleHash_def example_hexHash example_additionalHash)

lemma example_uncapped:
  "generateFaceHash example_runtime example_descriptor \<lparr>opt_type = Simple, opt_length = None\<rparr>
     = ''3c8366fb64.000019c8.0000322c.0000c8''"
  by (simp add: generateFaceHash_def example_simple)

lemma example_cap_0:
  "generateFaceHash example_runtime example_descriptor \<lparr>opt_type = Simple, opt_length = Some 0\<rparr>
     = ''3c8366fb64.000019c8.0000322c.0000c8''"
  by (simp add: generateFaceHash_def example_simple)

subsection \<open>Truncation\<close>

text \<open>
  Claim C4, as amended. For every descriptor, every algorithm type and every nonzero cap
  \<open>l\<close> strictly less than the length of the untruncated digest, the digest generated with
  the cap is the first \<open>l\<close> characters of the digest generated with no cap.
\<close>

theorem generateFaceHash_truncate:
  assumes "l \<noteq> 0"
    and "l < int (length (generateFaceHash rt d \<lparr>opt_type = t, opt_length = None\<rparr>))"
  shows "generateFaceHash rt d \<lparr>opt_type = t, opt_length = Some l\<rparr> =
           take (nat l) (generateFaceHash rt d \<lparr>opt_type = t, opt_length = None\<rparr>)"
  using assms by (simp add: generateFaceHash_def substring_0)

theorem generateFaceHash_truncate_witness:
  "(10 :: int) \<noteq> 0
   \<and> 10 < int (length (generateFaceHash example_runtime example_descriptor
                          \<lparr>opt_type = Simple, opt_length = None\<rparr>))
   \<and> generateFaceHash example_runtime example_descriptor
         \<lparr>opt_type = Simple, opt_length = Some 10\<rparr> = ''3c8366fb64''"
  using generateFaceHash_truncate [of 10 example_runtime example_descriptor Simple]
  by (simp add: example_uncapped)

text \<open>
  Claim C4 as it is written includes the cap 0, which is less than the length of every
  nonempty digest. A cap of 0 is falsy, so the guard skips the truncation and the whole
  digest is returned, not its first 0 characters.
\<close>

theorem generateFaceHash_zero_cap_counterexample:
  "(0 :: int) < int (length (generateFaceHash example_runtime example_descriptor
                               \<lparr>opt_type = Simple, opt_length = None\<rparr>))
   \<and> generateFaceHash example_runtime example_descriptor
         \<lparr>opt_type = Simple, opt_length = Some 0\<rparr>
       \<noteq> take (nat 0) (generateFaceHash example_runtime example_descriptor
                          \<lparr>opt_type = Simple, opt_length = None\<rparr>)"
  by (simp add: example_uncapped example_cap_0)

subsection \<open>The rolling-hash digest\<close>



section \<open>Properties of the record store\<close>

lemma Map_set_keys:
  "map fst (Map_set k v m) = (if k \<in> set (map fst m) then map fst m else map fst m @ [k])"
  by (induction m) force+

lemma Map_set_get_same: "map_of (Map_set k v m) k = Some v"
  by (induction m) auto

lemma Map_set_get_other: "k' \<noteq> k \<Longrightarrow> map_of (Map_set k v m) k' = map_of m k'"
  by (induction m) auto

lemma Map_set_distinct: "distinct (map fst m) \<Longrightarrow> distinct (map fst (Map_set k v m))"
  by (simp add: Map_set_keys)

lemma Map_set_length:
  "k \<in> set (map fst m) \<Longrightarrow> length (Map_set k v m) = length m"
proof -
  assume "k \<in> set (map fst m)"
  then have "map fst (Map_set k v m) = map fst m"
    by (simp add: Map_set_keys)
  then have "length (map fst (Map_set k v m)) = length (map fst m)"
    by (rule arg_cong)
  then show ?thesis by simp
qed

lemma distinct_keys_count:
  "distinct (map fst m) \<Longrightarrow> k \<in> set (map fst m) \<Longrightarrow>
     length (filter (\<lambda>e. fst e = k) m) = 1"
proof (induction m)
  case Nil
  then show ?case by simp
next
  case (Cons e m)
  show ?case
  proof (cases "fst e = k")
    case True
    with Cons.prems have "k \<notin> set (map fst m)" by auto
    then have "filter (\<lambda>e. fst e = k) m = []"
      by (auto simp: filter_empty_conv)
    with True show ?thesis by simp
  next
    case False
    with Cons show ?thesis by auto
  qed
qed

lemma map_of_keys: "map_of m k = Some v \<Longrightarrow> k \<in> fst ` set m"
  by (induction m) (auto split: if_splits)

lemma saveFaceHash_keys:
  "listUsers (snd (saveFaceHash db user digest meta now1 now2)) =
     (if user \<in> set (listUsers db) then listUsers db else listUsers db @ [user])"
  by (simp add: saveFaceHash_def listUsers_def Map_keys_def Map_set_keys Let_def)

lemma validateFaceHash_keys:
  "listUsers (snd (validateFaceHash db user inputHash thresholdArg now)) = listUsers db"
  by (auto simp: validateFaceHash_def listUsers_def Map_keys_def Map_get_def Map_set_keys
        Let_def split: option.splits dest: map_of_keys)

lemma removeUser_keys:
  "listUsers (snd (removeUser db user)) = filter (\<lambda>k. k \<noteq> user) (listUsers db)"
  by (simp add: removeUser_def listUsers_def Map_keys_def Map_delete_def filter_map comp_def)

lemma apply_db_op_distinct:
  "distinct (listUsers db) \<Longrightarrow> distinct (listUsers (apply_db_op db op))"
  by (cases op) (simp_all add: saveFaceHash_keys validateFaceHash_keys removeUser_keys)

lemma foldl_apply_db_op_distinct:
  "distinct (listUsers db) \<Longrightarrow> distinct (listUsers (foldl apply_db_op db ops))"
  by (induction ops arbitrary: db) (simp_all add: apply_db_op_distinct)

lemma run_db_ops_distinct: "distinct (listUsers (run_db_ops ops))"
  unfolding run_db_ops_def
  by (rule foldl_apply_db_op_distinct) (simp add: new_FaceDatabase_def listUsers_def Map_keys_def)

text \<open>
  Claim C7. After every sequence of operations the store holds at most one record for
  each identifier. Saving under an identifier leaves exactly one record for it, which a
  subsequent \<open>getFaceHash\<close> returns with the new digest and metadata; when the identifier
  was present, the record replaces the old one and the number of records is unchanged.
\<close>

theorem saveFaceHash_one_record:
  "distinct (listUsers (run_db_ops ops))
   \<and> (let db = run_db_ops ops;
           (r, db') = saveFaceHash db user digest meta now1 now2
       in getFaceHash db' user = Some r
          \<and> hash r = digest \<and> metadata r = meta
          \<and> distinct (listUsers db')
          \<and> length (filter (\<lambda>e. fst e = user) (faces db')) = 1
          \<and> (user \<in> set (listUsers db) \<longrightarrow>
               length (faces db') = length (faces db) \<and> listUsers db' = listUsers db))"
proof -
  let ?db = "run_db_ops ops"
  let ?r = "\<lparr>userId = user, hash = digest, metadata = meta, createdAt = now1, lastUsed = now2\<rparr>"
  let ?db' = "?db\<lparr>faces := Map_set user ?r (faces ?db)\<rparr>"
  have d: "distinct (map fst (faces ?db))"
    using run_db_ops_distinct [of ops] by (simp add: listUsers_def Map_keys_def)
  then have d': "distinct (map fst (Map_set user ?r (faces ?db)))"
    by (rule Map_set_distinct)
  have "user \<in> set (map fst (Map_set user ?r (faces ?db)))"
    by (simp add: Map_set_keys)
  with d' have one: "length (filter (\<lambda>e. fst e = user) (Map_set user ?r (faces ?db))) = 1"
    by (rule distinct_keys_count)
  have same: "user \<in> set (map fst (faces ?db)) \<Longrightarrow>
                length (Map_set user ?r (faces ?db)) = length (faces ?db)
                \<and> map fst (Map_set user ?r (faces ?db)) = map fst (faces ?db)"
    by (simp add: Map_set_length Map_set_keys)
  show ?thesis
    using d d' one same
    by (simp add: saveFaceHash_def getFaceHash_def Map_get_def Map_set_get_same
          listUsers_def Map_keys_def Let_def)
qed

theorem saveFaceHash_one_record_witness:
  "(let db = run_db_ops [SaveFaceHash ''joao'' ''aa'' [] ''t1'' ''t1'',
                         SaveFaceHash ''maria'' ''bb'' [] ''t2'' ''t2''];
        (r, db') = saveFaceHash db ''joao'' ''cc'' [(''name'', StrV ''Joao'')] ''t3'' ''t3''
    in ''joao'' \<in> set (listUsers db)
       \<and> getFaceHash db' ''joao'' = Some r
       \<and> hash r = ''cc'' \<and> metadata r = [(''name'', StrV ''Joao'')]
       \<and> length (faces db') = length (faces db)
       \<and> listUsers db' = [''joao'', ''maria''])"
proof -
  have k: "listUsers (run_db_ops [SaveFaceHash ''joao'' ''aa'' [] ''t1'' ''t1'',
                         SaveFaceHash ''maria'' ''bb'' [] ''t2'' ''t2'']) = [''joao'', ''maria'']"
    by (simp add: run_db_ops_def new_FaceDatabase_def saveFaceHash_def listUsers_def
          Map_keys_def Let_def)
  from saveFaceHash_one_record
         [of "[SaveFaceHash ''joao'' ''aa'' [] ''t1'' ''t1'',
               SaveFaceHash ''maria'' ''bb'' [] ''t2'' ''t2'']"
             "''joao''" "''cc''" "[(''name'', StrV ''Joao'')]" "''t3''" "''t3''"]
  show ?thesis
    by (simp add: k Let_def split_beta)
qed

lemma Map_set_same_keys:
  "map_of m k = Some v \<Longrightarrow> map fst (Map_set k v' m) = map fst m"
  by (auto simp: Map_set_keys dest: map_of_keys)

lemma validateFaceHash_result:
  "(let (res, db') = validateFaceHash db user inputHash thresholdArg now
    in (valid res \<longleftrightarrow>
          (\<exists>r. getFaceHash db user = Some r
               \<and> js_ge (compareHashes (hash r) inputHash) (default_threshold thresholdArg)))
       \<and> (\<not> valid res \<longrightarrow> db' = db)
       \<and> (valid res \<longrightarrow>
             listUsers db' = listUsers db
             \<and> (\<forall>u. u \<noteq> user \<longrightarrow> getFaceHash db' u = getFaceHash db u)
             \<and> (\<exists>r. getFaceHash db user = Some r
                    \<and> getFaceHash db' user = Some (r\<lparr>lastUsed := now\<rparr>))))"
proof (cases "Map_get (faces db) user")
  case None
  then show ?thesis
    by (simp add: validateFaceHash_def getFaceHash_def Let_def)
next
  case (Some storedRecord)
  then have m: "map_of (faces db) user = Some storedRecord"
    by (simp add: Map_get_def)
  show ?thesis
  proof (cases "js_ge (compareHashes (hash storedRecord) inputHash) (default_threshold thresholdArg)")
    case True
    with Some m show ?thesis
      by (simp add: validateFaceHash_def getFaceHash_def listUsers_def Map_keys_def Map_get_def
            Let_def Map_set_get_same Map_set_get_other Map_set_same_keys)
  next
    case False
    with Some m show ?thesis
      by (simp add: validateFaceHash_def getFaceHash_def Map_get_def Let_def)
  qed
qed

text \<open>
  Claim C10. \<open>validateFaceHash\<close> returns \<open>valid = true\<close> exactly when a record for the
  identifier exists and \<open>compareHashes\<close> of the stored digest and the input digest is at or
  above the threshold: the threshold that the caller gives, or the double 0.8 when the
  caller gives none. On a result that is not valid the store is unchanged. On a valid
  result the identifiers and their order are unchanged, every other identifier's record
  is unchanged, and the record of the identifier is the old one with \<open>lastUsed\<close> set to
  the time of the call.
\<close>

theorem validateFaceHash_frame:
  "(let thr = (case thresholdArg of
                 None \<Rightarrow> Num (3602879701896397 / 4503599627370496)
               | Some t \<Rightarrow> t);
        (res, db') = validateFaceHash db user inputHash thresholdArg now
    in (valid res \<longleftrightarrow>
          (\<exists>r. getFaceHash db user = Some r
               \<and> js_ge (compareHashes (hash r) inputHash) thr))
       \<and> (\<not> valid res \<longrightarrow> db' = db)
       \<and> (valid res \<longrightarrow>
             listUsers db' = listUsers db
             \<and> (\<forall>u. u \<noteq> user \<longrightarrow> getFaceHash db' u = getFaceHash db u)
             \<and> (\<exists>r. getFaceHash db user = Some r
                    \<and> getFaceHash db' user = Some (r\<lparr>lastUsed := now\<rparr>))))"
  using validateFaceHash_result [of db user inputHash thresholdArg now]
  by (simp only: default_threshold_def Let_def)

theorem validateFaceHash_frame_witness:
  "(let db = \<lparr>faces = [(''joao'', \<lparr>userId = ''joao'', hash = ''abcde'', metadata = [],
                                   createdAt = ''t0'', lastUsed = ''t0''\<rparr>),
                        (''maria'', \<lparr>userId = ''maria'', hash = ''vwxyz'', metadata = [],
                                    createdAt = ''t1'', lastUsed = ''t1''\<rparr>)]\<rparr>;
        (res1, db1) = validateFaceHash db ''joao'' ''abcdX'' None ''t2'';
        (res2, db2) = validateFaceHash db ''maria'' ''abcdX'' None ''t2'';
        (res3, db3) = validateFaceHash db ''maria'' ''abcdX'' (Some (Num 0)) ''t2'';
        (res4, db4) = validateFaceHash db ''joao'' ''abcdX'' (Some (Num 1)) ''t2''
    in valid res1
       \<and> getFaceHash db1 ''joao'' =
            Some \<lparr>userId = ''joao'', hash = ''abcde'', metadata = [],
                  createdAt = ''t0'', lastUsed = ''t2''\<rparr>
       \<and> getFaceHash db1 ''maria'' = getFaceHash db ''maria''
       \<and> \<not> valid res2 \<and> db2 = db
       \<and> valid res3
       \<and> getFaceHash db3 ''maria'' =
            Some \<lparr>userId = ''maria'', hash = ''vwxyz'', metadata = [],
                  createdAt = ''t1'', lastUsed = ''t2''\<rparr>
       \<and> \<not> valid res4 \<and> db4 = db)"
proof -
  let ?joao = "\<lparr>userId = ''joao'', hash = ''abcde'', metadata = [],
                 createdAt = ''t0'', lastUsed = ''t0''\<rparr>"
  let ?maria = "\<lparr>userId = ''maria'', hash = ''vwxyz'', metadata = [],
                 createdAt = ''t1'', lastUsed = ''t1''\<rparr>"
  let ?db = "\<lparr>faces = [(''joao'', ?joao), (''maria'', ?maria)]\<rparr>"
  note c1 = example_compare_4_of_5 and c2 = example_compare_0_of_5
  have gj: "getFaceHash ?db ''joao'' = Some ?joao" and gm: "getFaceHash ?db ''maria'' = Some ?maria"
    by (simp_all add: getFaceHash_def Map_get_def)
  note t1 = validateFaceHash_frame [of None ?db "''joao''" "''abcdX''" "''t2''"]
  note t2 = validateFaceHash_frame [of None ?db "''maria''" "''abcdX''" "''t2''"]
  note t3 = validateFaceHash_frame [of "Some (Num 0)" ?db "''maria''" "''abcdX''" "''t2''"]
  note t4 = validateFaceHash_frame [of "Some (Num 1)" ?db "''joao''" "''abcdX''" "''t2''"]
  from t1 have v1: "valid (fst (validateFaceHash ?db ''joao'' ''abcdX'' None ''t2''))"
    by (simp add: split_beta gj c1)
  from t2 have v2: "\<not> valid (fst (validateFaceHash ?db ''maria'' ''abcdX'' None ''t2''))"
    by (simp add: split_beta gm c2)
  from t3 have v3: "valid (fst (validateFaceHash ?db ''maria'' ''abcdX'' (Some (Num 0)) ''t2''))"
    by (simp add: split_beta gm c2)
  from t4 have v4: "\<not> valid (fst (validateFaceHash ?db ''joao'' ''abcdX'' (Some (Num 1)) ''t2''))"
    by (simp add: split_beta gj c1)
  from t1 v1
  have j1: "getFaceHash (snd (validateFaceHash ?db ''joao'' ''abcdX'' None ''t2'')) ''joao''
              = Some (?joao\<lparr>lastUsed := ''t2''\<rparr>)"
    and m1: "getFaceHash (snd (validateFaceHash ?db ''joao'' ''abcdX'' None ''t2'')) ''maria''
              = getFaceHash ?db ''maria''"
    by (auto simp: split_beta gj)
  from t2 v2 have u2: "snd (validateFaceHash ?db ''maria'' ''abcdX'' None ''t2'') = ?db"
    by (simp add: split_beta)
  from t3 v3
  have m3: "getFaceHash (snd (validateFaceHash ?db ''maria'' ''abcdX'' (Some (Num 0)) ''t2''))
              ''maria'' = Some (?maria\<lparr>lastUsed := ''t2''\<rparr>)"
    by (auto simp: split_beta gm)
  from t4 v4 have u4: "snd (validateFaceHash ?db ''joao'' ''abcdX'' (Some (Num 1)) ''t2'') = ?db"
    by (simp add: split_beta)
  from v1 v2 v3 v4 j1 m1 u2 m3 u4 show ?thesis
    by (simp add: split_beta Let_def)
qed

section \<open>Properties of the full-scan match\<close>

lemma findUserByHash_loop_none:
  "\<forall>u \<in> set users. \<not> js_ge (compareHashes (hash u) inputHash) thr \<Longrightarrow>
     findUserByHash_loop users inputHash thr = None
     \<and> findUserByHash_compared users inputHash thr = users"
  by (induction users) (simp_all add: Let_def)

lemma findUserByHash_loop_first:
  "i < length users \<Longrightarrow>
   js_ge (compareHashes (hash (users ! i)) inputHash) thr \<Longrightarrow>
   \<forall>j < i. \<not> js_ge (compareHashes (hash (users ! j)) inputHash) thr \<Longrightarrow>
     findUserByHash_loop users inputHash thr =
       Some \<lparr>match_userId = userId (users ! i),
             match_similarity = compareHashes (hash (users ! i)) inputHash,
             match_metadata = metadata (users ! i)\<rparr>
     \<and> findUserByHash_compared users inputHash thr = take (Suc i) users"
proof (induction users arbitrary: i)
  case Nil
  then show ?case by simp
next
  case (Cons user users)
  show ?case
  proof (cases i)
    case 0
    with Cons.prems show ?thesis by (simp add: Let_def)
  next
    case (Suc k)
    with Cons.prems have k: "k < length users"
      and r: "js_ge (compareHashes (hash (users ! k)) inputHash) thr"
      by simp_all
    from Cons.prems(3) Suc have "\<not> js_ge (compareHashes (hash ((user # users) ! 0)) inputHash) thr"
      by blast
    then have n0: "\<not> js_ge (compareHashes (hash user) inputHash) thr"
      by simp
    have "\<forall>j < k. \<not> js_ge (compareHashes (hash (users ! j)) inputHash) thr"
    proof (intro allI impI)
      fix j assume "j < k"
      then have "Suc j < i" using Suc by simp
      with Cons.prems(3) have "\<not> js_ge (compareHashes (hash ((user # users) ! Suc j)) inputHash) thr"
        by blast
      then show "\<not> js_ge (compareHashes (hash (users ! j)) inputHash) thr" by simp
    qed
    from Cons.IH [OF k r this] n0 Suc show ?thesis
      by (simp add: Let_def)
  qed
qed

text \<open>
  Claim C6, as amended. \<open>findUserByHash\<close> compares the input digest with the stored
  digests in the order of the store, by \<open>compareHashes\<close>, against the threshold that the
  caller gives, or the double 0.8 when the caller gives none. When no stored digest
  reaches the threshold it has compared every one of them and returns null. Otherwise it
  returns the first stored record whose similarity is at or above the threshold (its
  identifier, similarity and metadata), having compared the records up to that one and
  none after it.
\<close>

theorem findUserByHash_scan:
  "(let thr = (case thresholdArg of
                 None \<Rightarrow> Num (3602879701896397 / 4503599627370496)
               | Some t \<Rightarrow> t)
    in ((\<forall>u \<in> set users. \<not> js_ge (compareHashes (hash u) inputHash) thr) \<longrightarrow>
          findUserByHash (Inr users) inputHash thresholdArg = Inr None
          \<and> findUserByHash_compared users inputHash thr = users)
       \<and> (i < length users
           \<and> js_ge (compareHashes (hash (users ! i)) inputHash) thr
           \<and> (\<forall>j < i. \<not> js_ge (compareHashes (hash (users ! j)) inputHash) thr) \<longrightarrow>
          findUserByHash (Inr users) inputHash thresholdArg =
            Inr (Some \<lparr>match_userId = userId (users ! i),
                       match_similarity = compareHashes (hash (users ! i)) inputHash,
                       match_metadata = metadata (users ! i)\<rparr>)
          \<and> findUserByHash_compared users inputHash thr = take (Suc i) users))"
  using findUserByHash_loop_none [of users inputHash "default_threshold thresholdArg"]
    findUserByHash_loop_first [of i users inputHash "default_threshold thresholdArg"]
  by (simp add: findUserByHash_def Let_def default_threshold_def)

theorem findUserByHash_scan_witness:
  "findUserByHash (Inr [\<lparr>userId = ''maria'', hash = ''vwxyz'', metadata = [], createdAt = ''t1'',
            lastUsed = ''t1'', updatedAt = ''t1''\<rparr>,
           \<lparr>userId = ''joao'', hash = ''abcde'', metadata = [], createdAt = ''t2'',
            lastUsed = ''t2'', updatedAt = ''t2''\<rparr>,
           \<lparr>userId = ''ana'', hash = ''abcdX'', metadata = [], createdAt = ''t3'',
            lastUsed = ''t3'', updatedAt = ''t3''\<rparr>])
     ''abcdX'' None
     = Inr (Some \<lparr>match_userId = ''joao'',
                  match_similarity = Num (3602879701896397 / 4503599627370496),
                  match_metadata = []\<rparr>)
   \<and> findUserByHash (Inr [\<lparr>userId = ''maria'', hash = ''vwxyz'', metadata = [], createdAt = ''t1'',
            lastUsed = ''t1'', updatedAt = ''t1''\<rparr>,
           \<lparr>userId = ''joao'', hash = ''abcde'', metadata = [], createdAt = ''t2'',
            lastUsed = ''t2'', updatedAt = ''t2''\<rparr>,
           \<lparr>userId = ''ana'', hash = ''abcdX'', metadata = [], createdAt = ''t3'',
            lastUsed = ''t3'', updatedAt = ''t3''\<rparr>])
       ''abcdX'' (Some (Num 1))
     = Inr (Some \<lparr>match_userId = ''ana'', match_similarity = Num 1, match_metadata = []\<rparr>)
   \<and> findUserByHash (Inr [\<lparr>userId = ''maria'', hash = ''vwxyz'', metadata = [], createdAt = ''t1'',
            lastUsed = ''t1'', updatedAt = ''t1''\<rparr>]) ''abcdX'' None = Inr None
   \<and> findUserByHash (Inr [\<lparr>userId = ''maria'', hash = ''vwxyz'', metadata = [], createdAt = ''t1'',
            lastUsed = ''t1'', updatedAt = ''t1''\<rparr>]) ''abcdX'' (Some (Num 0))
     = Inr (Some \<lparr>match_userId = ''maria'', match_similarity = Num 0, match_metadata = []\<rparr>)"
proof -
  let ?maria = "\<lparr>userId = ''maria'', hash = ''vwxyz'', metadata = [], createdAt = ''t1'',
            lastUsed = ''t1'', updatedAt = ''t1''\<rparr>"
  let ?joao = "\<lparr>userId = ''joao'', hash = ''abcde'', metadata = [], createdAt = ''t2'',
            lastUsed = ''t2'', updatedAt = ''t2''\<rparr>"
  let ?ana = "\<lparr>userId = ''ana'', hash = ''abcdX'', metadata = [], createdAt = ''t3'',
            lastUsed = ''t3'', updatedAt = ''t3''\<rparr>"
  note c1 = example_compare_4_of_5 and c2 = example_compare_0_of_5
  have c3: "compareHashes ''abcdX'' ''abcdX'' = Num 1"
    by (rule compareHashes_self) simp
  have "findUserByHash (Inr [?maria, ?joao, ?ana]) ''abcdX'' None =
          Inr (Some \<lparr>match_userId = ''joao'',
                     match_similarity = Num (3602879701896397 / 4503599627370496),
                     match_metadata = []\<rparr>)"
    using findUserByHash_scan [of None "[?maria, ?joao, ?ana]" "''abcdX''" 1]
    by (simp add: c1 c2 Let_def)
  moreover
  have "findUserByHash (Inr [?maria, ?joao, ?ana]) ''abcdX'' (Some (Num 1)) =
          Inr (Some \<lparr>match_userId = ''ana'', match_similarity = Num 1, match_metadata = []\<rparr>)"
    using findUserByHash_scan [of "Some (Num 1)" "[?maria, ?joao, ?ana]" "''abcdX''" 2]
    by (simp add: c1 c2 c3 Let_def numeral_2_eq_2 less_Suc_eq imp_disjL all_conj_distrib)
  moreover
  have "findUserByHash (Inr [?maria]) ''abcdX'' None = Inr None"
    using findUserByHash_scan [of None "[?maria]" "''abcdX''" 0]
    by (simp add: c2 Let_def)
  moreover
  have "findUserByHash (Inr [?maria]) ''abcdX'' (Some (Num 0)) =
          Inr (Some \<lparr>match_userId = ''maria'', match_similarity = Num 0, match_metadata = []\<rparr>)"
    using findUserByHash_scan [of "Some (Num 0)" "[?maria]" "''abcdX''" 0]
    by (simp add: c2 Let_def)
  ultimately show ?thesis by (simp only: simp_thms)
qed

text \<open>
  Claim C6 as it is written has the scan compare the input digest against every stored
  digest. On the store below, with the default threshold, the second record reaches the
  threshold with similarity 0.8 and is returned; the third record, whose digest is equal
  to the input digest, is never compared.
\<close>

theorem findUserByHash_every_counterexample:
  "findUserByHash_compared [\<lparr>userId = ''maria'', hash = ''vwxyz'', metadata = [], createdAt = ''t1'',
            lastUsed = ''t1'', updatedAt = ''t1''\<rparr>,
           \<lparr>userId = ''joao'', hash = ''abcde'', metadata = [], createdAt = ''t2'',
            lastUsed = ''t2'', updatedAt = ''t2''\<rparr>,
           \<lparr>userId = ''ana'', hash = ''abcdX'', metadata = [], createdAt = ''t3'',
            lastUsed = ''t3'', updatedAt = ''t3''\<rparr>]
     ''abcdX'' (Num (3602879701896397 / 4503599627370496))
     = [\<lparr>userId = ''maria'', hash = ''vwxyz'', metadata = [], createdAt = ''t1'',
            lastUsed = ''t1'', updatedAt = ''t1''\<rparr>,
           \<lparr>userId = ''joao'', hash = ''abcde'', metadata = [], createdAt = ''t2'',
            lastUsed = ''t2'', updatedAt = ''t2''\<rparr>]
   \<and> findUserByHash (Inr [\<lparr>userId = ''maria'', hash = ''vwxyz'', metadata = [], createdAt = ''t1'',
            lastUsed = ''t1'', updatedAt = ''t1''\<rparr>,
           \<lparr>userId = ''joao'', hash = ''abcde'', metadata = [], createdAt = ''t2'',
            lastUsed = ''t2'', updatedAt = ''t2''\<rparr>,
           \<lparr>userId = ''ana'', hash = ''abcdX'', metadata = [], createdAt = ''t3'',
            lastUsed = ''t3'', updatedAt = ''t3''\<rparr>])
       ''abcdX'' None
     = Inr (Some \<lparr>match_userId = ''joao'',
                  match_similarity = Num (3602879701896397 / 4503599627370496),
                  match_metadata = []\<rparr>)
   \<and> compareHashes ''abcdX'' ''abcdX'' = Num 1"
proof -
  have c3: "compareHashes ''abcdX'' ''abcdX'' = Num 1"
    by (rule compareHashes_self) simp
  then show ?thesis
    by (simp add: findUserByHash_def default_threshold_def Let_def
          example_compare_4_of_5 example_compare_0_of_5)
qed

section \<open>Properties of the validation system\<close>

text \<open>
  Claim C8. When the detector returns no result, \<open>registerUser\<close> and \<open>validateUser\<close> fail
  with the error whose message is 'Nenhuma face detectada na imagem' and leave the system
  as it was: nothing is stored and no record is touched. The script \<open>run\<close> logs the
  same message and returns with no digest generated.
\<close>

theorem no_face_detected:
  assumes "loadImage env imagePath = Inr img"
    and "detectSingleFace env img = Inr None"
  shows "registerUser rt env sys user imagePath meta now1 now2 = (Inl (Error noFaceMessage), sys)
         \<and> validateUser rt env sys user imagePath now = (Inl (Error noFaceMessage), sys)
         \<and> run rt None = NoFace noFaceMessage"
  using assms by (simp add: registerUser_def validateUser_def run_def)

theorem no_face_detected_witness:
  "loadImage example_collaborators ''../images/empty.jpg'' = Inr ''../images/empty.jpg''
   \<and> detectSingleFace example_collaborators ''../images/empty.jpg'' = Inr None
   \<and> registerUser example_runtime example_collaborators new_FaceValidationSystem
        ''joao'' ''../images/empty.jpg'' [] ''t1'' ''t1''
       = (Inl (Error ''Nenhuma face detectada na imagem''), new_FaceValidationSystem)
   \<and> validateUser example_runtime example_collaborators new_FaceValidationSystem
        ''joao'' ''../images/empty.jpg'' ''t2''
       = (Inl (Error ''Nenhuma face detectada na imagem''), new_FaceValidationSystem)"
proof -
  have l: "loadImage example_collaborators ''../images/empty.jpg'' = Inr ''../images/empty.jpg''"
    by (simp add: example_collaborators_def)
  have d: "detectSingleFace example_collaborators ''../images/empty.jpg'' = Inr None"
    by (simp add: example_collaborators_def)
  from no_face_detected [OF l d, of example_runtime new_FaceValidationSystem "''joao''" "[]"
         "''t1''" "''t1''" "''t2''"] l d
  show ?thesis by (simp add: noFaceMessage_def)
qed

end
